theory Spec2Isabelle
  imports Main "HOL-Library.Word"
begin

unbundle bit_operations_syntax

section \<open>Machine words, memory and pages\<close>

text \<open>
  Addresses (\<open>PhysicalPA\<close>, \<open>VirtualPA\<close>, \<open>uintptr_t\<close>, \<open>size_t\<close>, \<open>uint64_t\<close>) are
  64-bit unsigned machine words on the AArch64 target; arithmetic on them wraps around.
  Memory is byte addressed.
\<close>

type_synonym u64 = "64 word"
type_synonym memory = "u64 \<Rightarrow> 8 word"

text \<open>
  Modelled from the spec: the constant \<open>PAGE_SIZE\<close> is declared in a header that is not
  among the sources; the specification fixes a 4KB granule (page size 4096).
\<close>

definition PAGE_SIZE :: u64 where
  "PAGE_SIZE = 4096"

section \<open>The boot-time bump allocator\<close>

text \<open>
  \<open>struct MMUTableHandleData\<close>: the bookkeeping of the boot allocator. All three fields
  are \<open>size_t\<close>.
\<close>

record MMUTableHandleData =
  first_page :: u64
  upper_bound :: u64
  nb_allocated :: u64

text \<open>
  A little-endian 64-bit store, as performed by the assignment \<open>new_page[i] = 0\<close> through
  a \<open>uint64_t*\<close>: the byte at offset \<open>k < 8\<close> from the address receives bits
  \<open>8k .. 8k+7\<close> of the value.
\<close>

definition store64 :: "memory \<Rightarrow> u64 \<Rightarrow> u64 \<Rightarrow> memory" where
  "store64 m a v = (\<lambda>x. if x - a < 8 then ucast (drop_bit (8 * unat (x - a)) v) else m x)"

text \<open>
  The zeroing loop of \<open>alloc_page\<close>:
  \<open>for (size_t i = 0; i < PAGE_SIZE / sizeof(uint64_t); ++i) new_page[i] = 0;\<close>
\<close>

function zero_fill :: "memory \<Rightarrow> u64 \<Rightarrow> nat \<Rightarrow> memory" where
  "zero_fill m new_page i =
     (if i < unat (PAGE_SIZE div 8)
      then zero_fill (store64 m (new_page + 8 * of_nat i) 0) new_page (i + 1)
      else m)"
  by pat_completeness auto
termination
  by (relation "measure (\<lambda>(m, p, i). unat (PAGE_SIZE div 8) - i)") auto

declare zero_fill.simps [simp del]

text \<open>
  \<open>alloc_page\<close>. The call to \<open>enforce\<close> halts the processor when its argument is false:
  the model then returns \<open>None\<close>. Otherwise the result is the address of the new page,
  the updated handle and the updated memory.
\<close>

definition alloc_page ::
  "MMUTableHandleData \<Rightarrow> memory \<Rightarrow> (u64 \<times> MMUTableHandleData \<times> memory) option" where
  "alloc_page handle m =
     (let current_page_offset = first_page handle + PAGE_SIZE * nb_allocated handle in
      if current_page_offset + PAGE_SIZE < upper_bound handle
      then Some (current_page_offset,
                 handle\<lparr>nb_allocated := nb_allocated handle + 1\<rparr>,
                 zero_fill m current_page_offset 0)
      else None)"

text \<open>
  The handle that \<open>mmu_init\<close> builds: \<open>first_page\<close> is the address of the linker symbol
  \<open>_kend\<close>, \<open>upper_bound\<close> is the device-tree pointer with its page offset cleared
  (\<open>(uintptr_t)dtb & ~(PAGE_SIZE - 1)\<close>), and nothing is allocated yet.
\<close>

definition mmu_init_handle :: "u64 \<Rightarrow> u64 \<Rightarrow> MMUTableHandleData" where
  "mmu_init_handle kend dtb =
     \<lparr>first_page = kend, upper_bound = dtb AND NOT (PAGE_SIZE - 1), nb_allocated = 0\<rparr>"

text \<open>
  \<open>n\<close> successive calls of \<open>alloc_page\<close> on the same handle, as \<open>mmu_init\<close> and the table
  code issue them. The result lists the pages in the order they were handed out; it is
  \<open>None\<close> as soon as one call halts.
\<close>

fun alloc_pages ::
  "nat \<Rightarrow> MMUTableHandleData \<Rightarrow> memory \<Rightarrow> (u64 list \<times> MMUTableHandleData \<times> memory) option" where
  "alloc_pages 0 handle m = Some ([], handle, m)"
| "alloc_pages (Suc n) handle m =
     (case alloc_pages n handle m of
        None \<Rightarrow> None
      | Some (ps, h1, m1) \<Rightarrow>
          (case alloc_page h1 m1 of
             None \<Rightarrow> None
           | Some (p, h2, m2) \<Rightarrow> Some (ps @ [p], h2, m2)))"

section \<open>The device tree, as the boot code consumes it\<close>

text \<open>
  Modelled from the spec: the type \<open>Property\<close> of the device-tree query interface is
  declared in \<open>dtb/dtb.hpp\<close>, which is not among the sources. A property is the list of
  its bytes as they stand in the blob; its \<open>length\<close> field is the length of that list.
\<close>

type_synonym Property = "8 word list"

text \<open>
  Modelled from the spec: \<open>libk::from_be\<close> is defined in \<open>libk/utils.hpp\<close>, which is not
  among the sources. "Byte order is big-endian on the wire; the core converts to host
  order": the value of a byte sequence, most significant byte first.
\<close>

definition from_be :: "8 word list \<Rightarrow> u64" where
  "from_be bs = foldl (\<lambda>acc b. push_bit 8 acc OR ucast b) 0 bs"

text \<open>
  Modelled from the spec: \<open>Property::get_variable_int\<close> is declared in \<open>dtb/dtb.hpp\<close>,
  which is not among the sources. The specification gives it as
  \<open>get_variable_int(&cursor, out, is_64bit)\<close>: it reads one cell (4 bytes) or two cells
  (8 bytes) at the cursor and advances the cursor behind them; it fails when the
  property has too few bytes left. The model returns the new cursor together with the
  value read; a caller that passes \<open>nullptr\<close> for \<open>out\<close> ignores the value.
\<close>

definition get_variable_int :: "Property \<Rightarrow> nat \<Rightarrow> bool \<Rightarrow> (nat \<times> u64) option" where
  "get_variable_int p index is_64bit =
     (let n = (if is_64bit then 8 else 4) in
      if index + n \<le> length p
      then Some (index + n, from_be (take n (drop index p)))
      else None)"

text \<open>
  Modelled from the spec: the classes \<open>Node\<close> and \<open>DeviceTree\<close> are declared in
  \<open>dtb/dtb.hpp\<close>, which is not among the sources. The specification describes
  \<open>find_property(path) -> Property?\<close> and the "iteration over child nodes with name and
  reg/ranges property access": a child node of the root has a name and its own
  properties; the device tree answers \<open>find_property\<close> by path and lists the children of
  its root.
\<close>

record Node =
  get_name :: string
  node_find_property :: "string \<Rightarrow> Property option"

record DeviceTree =
  find_property :: "string \<Rightarrow> Property option"
  get_children :: "Node list"

text \<open>
  \<open>struct DeviceMemoryProperties\<close>: the cell widths of the root and of \<open>/soc\<close>. A value
  of this type is called \<open>props\<close> below where the boot code calls it \<open>prop\<close>.
\<close>

record DeviceMemoryProperties =
  is_arm_mem_address_u64 :: bool
  is_arm_mem_size_u64 :: bool
  is_soc_mem_address_u64 :: bool
  is_soc_mem_size_u64 :: bool

section \<open>Page attributes\<close>

text \<open>
  Modelled from the spec: \<open>PagesAttributes\<close> and its enumerations are declared in
  \<open>mmu_table.hpp\<close>, which is not among the sources. The fields and the members are the
  ones the boot code names in its attribute constants; \<open>User\<close> stands for the
  non-privileged accessibility that the specification lists ("accessibility
  (privileged/user)").
\<close>

datatype Shareability = InnerShareable | OuterShareable
datatype ExecutionPermission = PrivilegedExecute | NeverExecute
datatype ReadWritePermission = ReadOnly | ReadWrite
datatype Accessibility = Privileged | User
datatype MemoryType = Normal | Device_nGnRnE | Device_nGRE | Normal_NoCache

record PagesAttributes =
  sh :: Shareability
  exec :: ExecutionPermission
  rw :: ReadWritePermission
  access :: Accessibility
  type :: MemoryType

text \<open>The attribute constants of the boot code.\<close>

definition kernel_code :: PagesAttributes where
  "kernel_code = \<lparr>sh = InnerShareable, exec = PrivilegedExecute, rw = ReadOnly,
                   access = Privileged, type = Normal\<rparr>"

definition rw_memory :: PagesAttributes where
  "rw_memory = \<lparr>sh = InnerShareable, exec = NeverExecute, rw = ReadWrite,
                 access = Privileged, type = Normal\<rparr>"

definition ro_memory :: PagesAttributes where
  "ro_memory = \<lparr>sh = InnerShareable, exec = NeverExecute, rw = ReadOnly,
                 access = Privileged, type = Normal\<rparr>"

definition vc_memory :: PagesAttributes where
  "vc_memory = \<lparr>sh = OuterShareable, exec = NeverExecute, rw = ReadWrite,
                 access = Privileged, type = Device_nGRE\<rparr>"

section \<open>Boot-time mapping setup\<close>

text \<open>
  The boot code drives the page table only through \<open>map_range\<close> and \<open>change_attr_range\<close>,
  which are defined in \<open>mmu_table.cpp\<close>, not among the sources. The functions of this
  section take them as parameters: an operation receives the table, the virtual range
  (its end inclusive), for \<open>map_range\<close> the first physical address, and the attributes,
  and returns its boolean result with the updated table.

  \<open>enforce\<close> halts the processor when the result is false (the model returns \<open>None\<close>).
\<close>

definition enforce :: "bool \<times> 'tbl \<Rightarrow> 'tbl option" where
  "enforce r = (case r of (True, tbl) \<Rightarrow> Some tbl | (False, _) \<Rightarrow> None)"

text \<open>
  \<open>setup_memory_mapping\<close>, first part: the inner loop over the \<open>reg\<close> property of one
  memory node, and the outer loop over the children of the root whose name starts with
  \<open>memory@\<close>.
\<close>

function memory_reg_loop ::
  "('tbl \<Rightarrow> u64 \<Rightarrow> u64 \<Rightarrow> u64 \<Rightarrow> PagesAttributes \<Rightarrow> bool \<times> 'tbl) \<Rightarrow> u64 \<Rightarrow>
   DeviceMemoryProperties \<Rightarrow> Property \<Rightarrow> nat \<Rightarrow> 'tbl \<Rightarrow> 'tbl option" where
  "memory_reg_loop map_range NORMAL_MEMORY props tmp_prop index tbl =
     (if index < length tmp_prop then
        (case get_variable_int tmp_prop index (is_arm_mem_address_u64 props) of
           None \<Rightarrow> None
         | Some (i1, memory_chunk_start) \<Rightarrow>
             (case get_variable_int tmp_prop i1 (is_arm_mem_size_u64 props) of
                None \<Rightarrow> None
              | Some (i2, memory_chunk_size) \<Rightarrow>
                  (let va_start = NORMAL_MEMORY + memory_chunk_start;
                       va_end = va_start + memory_chunk_size - PAGE_SIZE;
                       pa_start = memory_chunk_start
                   in case enforce (map_range tbl va_start va_end pa_start rw_memory) of
                        None \<Rightarrow> None
                      | Some tbl' \<Rightarrow>
                          memory_reg_loop map_range NORMAL_MEMORY props tmp_prop i2 tbl')))
      else Some tbl)"
  by pat_completeness auto
termination
  by (relation "measure (\<lambda>(mr, nm, props, p, index, tbl). length p - index)")
     (auto simp: get_variable_int_def Let_def split: if_splits)

declare memory_reg_loop.simps [simp del]

fun memory_nodes_loop ::
  "('tbl \<Rightarrow> u64 \<Rightarrow> u64 \<Rightarrow> u64 \<Rightarrow> PagesAttributes \<Rightarrow> bool \<times> 'tbl) \<Rightarrow> u64 \<Rightarrow>
   DeviceMemoryProperties \<Rightarrow> Node list \<Rightarrow> 'tbl \<Rightarrow> 'tbl option" where
  "memory_nodes_loop map_range NORMAL_MEMORY props [] tbl = Some tbl"
| "memory_nodes_loop map_range NORMAL_MEMORY props (node # nodes) tbl =
     (if take 7 (get_name node) = ''memory@'' then
        (case node_find_property node ''reg'' of
           None \<Rightarrow> None
         | Some tmp_prop \<Rightarrow>
             (case memory_reg_loop map_range NORMAL_MEMORY props tmp_prop 0 tbl of
                None \<Rightarrow> None
              | Some tbl' \<Rightarrow> memory_nodes_loop map_range NORMAL_MEMORY props nodes tbl'))
      else memory_nodes_loop map_range NORMAL_MEMORY props nodes tbl)"

text \<open>
  Modelled from the spec: \<open>libk::align\<close> is defined in \<open>libk/utils.hpp\<close>, which is not
  among the sources. The specification says that the end of the device-tree blob is
  "aligned up to a page": the least multiple of the alignment, a power of two, that is
  not below the value.
\<close>

definition align :: "u64 \<Rightarrow> u64 \<Rightarrow> u64" where
  "align x alignment = (x + (alignment - 1)) AND NOT (alignment - 1)"

text \<open>
  \<open>libk::from_be(dtb[1])\<close>: \<open>dtb\<close> points to 32-bit words, so \<open>dtb[1]\<close> is the word at
  byte offset 4, read here through its four bytes in big-endian order.
\<close>

definition read_be32 :: "memory \<Rightarrow> u64 \<Rightarrow> u64" where
  "read_be32 m a = from_be [m a, m (a + 1), m (a + 2), m (a + 3)]"

text \<open>
  \<open>setup_memory_mapping\<close>, last block ("Mapping device tree in read-only"): the two
  range arguments that it passes to \<open>change_attr_range\<close>.
\<close>

definition dtb_range :: "u64 \<Rightarrow> memory \<Rightarrow> u64 \<Rightarrow> u64 \<times> u64" where
  "dtb_range NORMAL_MEMORY m dtb =
     (let dtb_start = dtb AND NOT (PAGE_SIZE - 1);
          dtb_size = read_be32 m (dtb + 4);
          dtb_stop = align (dtb + dtb_size) PAGE_SIZE
      in (NORMAL_MEMORY + dtb_start, NORMAL_MEMORY + dtb_stop))"

text \<open>
  \<open>setup_memory_mapping\<close>. The linker symbols \<open>_stext\<close>, \<open>_srodata\<close>, \<open>_srwdata\<close> and the
  constant \<open>NORMAL_MEMORY\<close> are parameters; \<open>m\<close> is the memory that holds the blob.
\<close>

definition setup_memory_mapping ::
  "('tbl \<Rightarrow> u64 \<Rightarrow> u64 \<Rightarrow> u64 \<Rightarrow> PagesAttributes \<Rightarrow> bool \<times> 'tbl) \<Rightarrow>
   ('tbl \<Rightarrow> u64 \<Rightarrow> u64 \<Rightarrow> PagesAttributes \<Rightarrow> bool \<times> 'tbl) \<Rightarrow>
   u64 \<Rightarrow> u64 \<Rightarrow> u64 \<Rightarrow> u64 \<Rightarrow> memory \<Rightarrow>
   'tbl \<Rightarrow> DeviceTree \<Rightarrow> u64 \<Rightarrow> DeviceMemoryProperties \<Rightarrow> 'tbl option" where
  "setup_memory_mapping map_range change_attr_range NORMAL_MEMORY stext srodata srwdata m
       tbl dt dtb props =
     (case memory_nodes_loop map_range NORMAL_MEMORY props (get_children dt) tbl of
        None \<Rightarrow> None
      | Some tbl1 \<Rightarrow>
          (case enforce (change_attr_range tbl1 stext (srodata - PAGE_SIZE) kernel_code) of
             None \<Rightarrow> None
           | Some tbl2 \<Rightarrow>
               (case enforce (change_attr_range tbl2 srodata (srwdata - PAGE_SIZE) ro_memory) of
                  None \<Rightarrow> None
                | Some tbl3 \<Rightarrow>
                    (case dtb_range NORMAL_MEMORY m dtb of
                       (va_start, va_end) \<Rightarrow>
                         enforce (change_attr_range tbl3 va_start va_end ro_memory)))))"

text \<open>
  \<open>setup_vc_mapping\<close>, the loop over \<open>/soc/ranges\<close>: every entry is a child address, an
  ARM-bus address and a size; the loop keeps the least ARM-bus address seen so far.
\<close>

function soc_ranges_min :: "Property \<Rightarrow> DeviceMemoryProperties \<Rightarrow> nat \<Rightarrow> u64 \<Rightarrow> u64 option" where
  "soc_ranges_min tmp_prop props index mmio_base_start =
     (if index < length tmp_prop then
        (case get_variable_int tmp_prop index (is_soc_mem_address_u64 props) of
           None \<Rightarrow> None
         | Some (i1, _) \<Rightarrow>
             (case get_variable_int tmp_prop i1 (is_arm_mem_address_u64 props) of
                None \<Rightarrow> None
              | Some (i2, memory_chunk_start) \<Rightarrow>
                  (case get_variable_int tmp_prop i2 (is_soc_mem_size_u64 props) of
                     None \<Rightarrow> None
                   | Some (i3, _) \<Rightarrow>
                       soc_ranges_min tmp_prop props i3
                         (if memory_chunk_start < mmio_base_start
                          then memory_chunk_start else mmio_base_start))))
      else Some mmio_base_start)"
  by pat_completeness auto
termination
  by (relation "measure (\<lambda>(p, props, index, m). length p - index)")
     (auto simp: get_variable_int_def Let_def split: if_splits)

declare soc_ranges_min.simps [simp del]

text \<open>
  \<open>setup_vc_mapping\<close> up to the computation of \<open>final_vc_size\<close>: the result is
  \<open>(vc_start, final_vc_size)\<close>. The loop starts from
  \<open>std::numeric_limits<uint64_t>::max()\<close>, which is \<open>- 1\<close> as a 64-bit word; the
  subtraction \<open>mmio_base_start - vc_start\<close> is a 64-bit unsigned subtraction.
\<close>

definition vc_region :: "DeviceTree \<Rightarrow> DeviceMemoryProperties \<Rightarrow> (u64 \<times> u64) option" where
  "vc_region dt props =
     (case find_property dt ''/soc/ranges'' of
        None \<Rightarrow> None
      | Some tmp_prop \<Rightarrow>
          (case soc_ranges_min tmp_prop props 0 (- 1) of
             None \<Rightarrow> None
           | Some mmio_base_start \<Rightarrow>
               (case find_property dt ''/memreserve'' of
                  None \<Rightarrow> None
                | Some memreserve \<Rightarrow>
                    (case get_variable_int memreserve 0 False of
                       None \<Rightarrow> None
                     | Some (i1, vc_start) \<Rightarrow>
                         (case get_variable_int memreserve i1 False of
                            None \<Rightarrow> None
                          | Some (i2, vc_size) \<Rightarrow>
                              Some (vc_start, min vc_size (mmio_base_start - vc_start)))))))"

text \<open>\<open>setup_vc_mapping\<close>; the constant \<open>VC_MEMORY\<close> is a parameter.\<close>

definition setup_vc_mapping ::
  "('tbl \<Rightarrow> u64 \<Rightarrow> u64 \<Rightarrow> u64 \<Rightarrow> PagesAttributes \<Rightarrow> bool \<times> 'tbl) \<Rightarrow> u64 \<Rightarrow>
   'tbl \<Rightarrow> DeviceTree \<Rightarrow> DeviceMemoryProperties \<Rightarrow> 'tbl option" where
  "setup_vc_mapping map_range VC_MEMORY tbl dt props =
     (case vc_region dt props of
        None \<Rightarrow> None
      | Some (vc_start, final_vc_size) \<Rightarrow>
          enforce (map_range tbl VC_MEMORY (VC_MEMORY + final_vc_size - PAGE_SIZE)
                     vc_start vc_memory))"

text \<open>
  The ARM-bus addresses of all entries of \<open>/soc/ranges\<close>, in order: the specification's
  reading of the property, against which the loop above is compared.
\<close>

function soc_ranges_arm_addresses ::
  "Property \<Rightarrow> DeviceMemoryProperties \<Rightarrow> nat \<Rightarrow> u64 list option" where
  "soc_ranges_arm_addresses p props index =
     (if index < length p then
        (case get_variable_int p index (is_soc_mem_address_u64 props) of
           None \<Rightarrow> None
         | Some (i1, _) \<Rightarrow>
             (case get_variable_int p i1 (is_arm_mem_address_u64 props) of
                None \<Rightarrow> None
              | Some (i2, arm_address) \<Rightarrow>
                  (case get_variable_int p i2 (is_soc_mem_size_u64 props) of
                     None \<Rightarrow> None
                   | Some (i3, _) \<Rightarrow>
                       map_option (\<lambda>rest. arm_address # rest)
                         (soc_ranges_arm_addresses p props i3))))
      else Some [])"
  by pat_completeness auto
termination
  by (relation "measure (\<lambda>(p, props, index). length p - index)")
     (auto simp: get_variable_int_def Let_def split: if_splits)

declare soc_ranges_arm_addresses.simps [simp del]

text \<open>Cell widths of one cell each, as used in the examples below.\<close>

definition example_props :: DeviceMemoryProperties where
  "example_props = \<lparr>is_arm_mem_address_u64 = False, is_arm_mem_size_u64 = False,
                     is_soc_mem_address_u64 = False, is_soc_mem_size_u64 = False\<rparr>"

section \<open>The page-table manager\<close>

text \<open>
  Modelled from the spec: the page-table manager (\<open>MMUTable\<close>, \<open>map_range\<close>,
  \<open>translate\<close>) is implemented in \<open>mmu_table.cpp\<close>, which is not among the sources; only
  its caller, the boot code, is. The definitions of this section follow the
  specification's data model and component design.

  The error taxonomy of the specification.
\<close>

datatype MappingError =
  OutOfMemory | AlreadyMapped | NotMapped | MisalignedAddress | DeviceTreeMalformed

text \<open>
  Modelled from the spec: a page-table entry is "one slot in one level of the table;
  tagged by kind: invalid, table-descriptor (points to next-level table, owns no data),
  page/block-descriptor (terminal, carries PageAttributes + output PhysicalAddress)".
  A table is a page of 512 slots, addressed by index. The table that a table descriptor
  points to lives in memory at the descriptor's physical address; the model keeps the
  content of that table next to the address, so that a table tree is a value and the
  allocator's contract (a page it hands out is zero-filled and used by nothing else) is
  built into the shape of the data.
\<close>

datatype PageTableEntry =
    Invalid
  | TableDescriptor u64 "nat \<Rightarrow> PageTableEntry"
  | PageDescriptor u64 PagesAttributes

type_synonym Table = "nat \<Rightarrow> PageTableEntry"

datatype Kind = Kernel | User

text \<open>
  \<open>struct MMUTable\<close>, with the fields that \<open>mmu_init\<close> initialises: the kind, the root
  page \<open>pgd\<close>, the address-space id, the allocator's handle and the four callbacks. The
  callbacks have the types of the boot code's \<open>alloc_page\<close>, \<open>resolve_pa\<close> and
  \<open>resolve_va\<close>: \<open>alloc\<close> returns the virtual address of a zero-filled page and updates
  the state behind the handle, or cannot supply a page; \<open>free\<close> may be absent;
  \<open>resolve_va\<close> turns a virtual address into the physical one that descriptors store and
  \<open>resolve_pa\<close> goes back. The field \<open>root\<close> is the content of the table page at \<open>pgd\<close>.
\<close>

record 'h MMUTable =
  kind :: Kind
  pgd :: u64
  asid :: "8 word"
  handle :: 'h
  alloc :: "'h \<Rightarrow> (u64 \<times> 'h) option"
  free :: "('h \<Rightarrow> u64 \<Rightarrow> 'h) option"
  resolve_pa :: "'h \<Rightarrow> u64 \<Rightarrow> u64"
  resolve_va :: "'h \<Rightarrow> u64 \<Rightarrow> u64"
  root :: Table

text \<open>
  Modelled from the spec: "walking is over exactly 4 fixed levels; each level's index is
  extracted from fixed bit ranges of the virtual address (9 bits per level)", above the
  12 bits of the offset within a 4KB page. The first argument counts the levels below
  the table: 3 for the root, 0 for the last level.
\<close>

definition table_index :: "nat \<Rightarrow> u64 \<Rightarrow> nat" where
  "table_index depth va = unat (drop_bit (12 + 9 * depth) va AND 0x1FF)"

text \<open>
  Modelled from the spec: \<open>translate(table, va)\<close> "walks the table, following
  table-descriptors until a leaf, returns the leaf's physical address plus the page
  offset of va, or None if any level is invalid". Below the last level there is no
  table to follow.
\<close>

fun translate_from :: "nat \<Rightarrow> Table \<Rightarrow> u64 \<Rightarrow> u64 option" where
  "translate_from 0 tbl va =
     (case tbl (table_index 0 va) of
        Invalid \<Rightarrow> None
      | TableDescriptor _ _ \<Rightarrow> None
      | PageDescriptor pa attrs \<Rightarrow> Some (pa + (va AND (PAGE_SIZE - 1))))"
| "translate_from (Suc below) tbl va =
     (case tbl (table_index (Suc below) va) of
        Invalid \<Rightarrow> None
      | TableDescriptor _ next_level \<Rightarrow> translate_from below next_level va
      | PageDescriptor pa attrs \<Rightarrow> Some (pa + (va AND (PAGE_SIZE - 1))))"

definition translate :: "'h MMUTable \<Rightarrow> u64 \<Rightarrow> u64 option" where
  "translate table va = translate_from 3 (root table) va"

text \<open>
  Modelled from the spec: \<open>map_range\<close>, for one virtual page, "walks/creates intermediate
  table levels (allocating new table pages on demand via the allocator when a required
  intermediate entry is invalid), then writes a leaf descriptor. Fails
  (MappingError::AlreadyMapped) if any target leaf is already valid. Fails if the
  allocator cannot supply a table page." The result is the error, if any, the updated
  table page and the allocator's updated state.
\<close>

fun map_page_from ::
  "nat \<Rightarrow> ('h \<Rightarrow> (u64 \<times> 'h) option) \<Rightarrow> ('h \<Rightarrow> u64 \<Rightarrow> u64) \<Rightarrow>
   u64 \<Rightarrow> u64 \<Rightarrow> PagesAttributes \<Rightarrow> Table \<Rightarrow> 'h \<Rightarrow> MappingError option \<times> Table \<times> 'h" where
  "map_page_from 0 al rva va pa attrs tbl h =
     (case tbl (table_index 0 va) of
        Invalid \<Rightarrow> (None, tbl(table_index 0 va := PageDescriptor pa attrs), h)
      | TableDescriptor _ _ \<Rightarrow> (Some AlreadyMapped, tbl, h)
      | PageDescriptor _ _ \<Rightarrow> (Some AlreadyMapped, tbl, h))"
| "map_page_from (Suc below) al rva va pa attrs tbl h =
     (case tbl (table_index (Suc below) va) of
        TableDescriptor next_pa next_level \<Rightarrow>
          (case map_page_from below al rva va pa attrs next_level h of
             (r, next_level', h') \<Rightarrow>
               (r, tbl(table_index (Suc below) va := TableDescriptor next_pa next_level'), h'))
      | PageDescriptor _ _ \<Rightarrow> (Some AlreadyMapped, tbl, h)
      | Invalid \<Rightarrow>
          (case al h of
             None \<Rightarrow> (Some OutOfMemory, tbl, h)
           | Some (page, h1) \<Rightarrow>
               (case map_page_from below al rva va pa attrs (\<lambda>_. Invalid) h1 of
                  (r, next_level', h') \<Rightarrow>
                    (r, tbl(table_index (Suc below) va :=
                              TableDescriptor (rva h1 page) next_level'), h'))))"

text \<open>
  Modelled from the spec: the pages of a range "from va_start to va_end_inclusive (both
  inclusive, already page-aligned)", in ascending order. A range whose end lies below
  its start has no page.
\<close>

definition range_pages :: "u64 \<Rightarrow> u64 \<Rightarrow> u64 list" where
  "range_pages va_start va_end =
     (if va_start \<le> va_end
      then map (\<lambda>i. va_start + PAGE_SIZE * of_nat i)
             [0..<unat ((va_end - va_start) div PAGE_SIZE) + 1]
      else [])"

text \<open>
  Modelled from the spec: \<open>map_range\<close> "maps consecutive pages from va_start to
  va_end_inclusive to consecutive physical pages starting at pa_start, applying attrs
  to every leaf entry", one page after the other; it stops at the first page that
  fails. Its boolean result is true when the error is \<open>None\<close>.
\<close>

fun map_pages ::
  "('h \<Rightarrow> (u64 \<times> 'h) option) \<Rightarrow> ('h \<Rightarrow> u64 \<Rightarrow> u64) \<Rightarrow>
   u64 list \<Rightarrow> u64 \<Rightarrow> PagesAttributes \<Rightarrow> Table \<Rightarrow> 'h \<Rightarrow> MappingError option \<times> Table \<times> 'h" where
  "map_pages al rva [] pa attrs tbl h = (None, tbl, h)"
| "map_pages al rva (va # vas) pa attrs tbl h =
     (case map_page_from 3 al rva va pa attrs tbl h of
        (None, tbl', h') \<Rightarrow> map_pages al rva vas (pa + PAGE_SIZE) attrs tbl' h'
      | (Some e, tbl', h') \<Rightarrow> (Some e, tbl', h'))"

definition map_range ::
  "'h MMUTable \<Rightarrow> u64 \<Rightarrow> u64 \<Rightarrow> u64 \<Rightarrow> PagesAttributes \<Rightarrow> MappingError option \<times> 'h MMUTable" where
  "map_range table va_start va_end pa_start attrs =
     (case map_pages (alloc table) (resolve_va table) (range_pages va_start va_end)
             pa_start attrs (root table) (handle table) of
        (r, tbl', h') \<Rightarrow> (r, table\<lparr>handle := h', root := tbl'\<rparr>))"

text \<open>
  Two virtual addresses lie in the same page of an address space when they select the
  same slot at every level, from the given one down to the last.
\<close>

definition same_page :: "nat \<Rightarrow> u64 \<Rightarrow> u64 \<Rightarrow> bool" where
  "same_page depth va va' = (\<forall>l \<le> depth. table_index l va = table_index l va')"

text \<open>
  An empty kernel table for the examples: its allocator hands out consecutive pages from
  \<open>0x81000\<close> and never fails, it has no \<open>free\<close> callback, and its address resolvers are
  the identity, as the boot code's \<open>resolve_pa\<close> and \<open>resolve_va\<close> are.
\<close>

definition example_table :: "nat MMUTable" where
  "example_table =
     \<lparr>kind = Kernel, pgd = 0x80000, asid = 0, handle = 0,
      alloc = (\<lambda>n. Some (0x81000 + PAGE_SIZE * of_nat n, Suc n)),
      free = None, resolve_pa = (\<lambda>_ a. a), resolve_va = (\<lambda>_ a. a),
      root = (\<lambda>_. Invalid)\<rparr>"

section \<open>Properties of the boot allocator\<close>

lemma page_words: "unat (PAGE_SIZE div 8) = 512"
  by (simp add: PAGE_SIZE_def)

lemma store64_zero: "store64 m a 0 x = (if x - a < 8 then 0 else m x)"
  by (simp add: store64_def)

lemma sub_lt8:
  fixes d :: u64
  assumes "i < 512"
  shows "(d - 8 * of_nat i < 8) = (8 * i \<le> unat d \<and> unat d < 8 * i + 8)"
proof -
  have u: "unat (8 * word_of_nat i :: u64) = 8 * i"
    using assms by (simp add: unat_word_ariths unat_of_nat)
  have b: "unat d < 2 ^ 64" using unsigned_less [of d] by simp
  show ?thesis
    using u b assms
    by (auto simp add: word_less_nat_alt unat_sub_if_size word_size)
qed

lemma zero_fill_spec:
  "i \<le> 512 \<Longrightarrow> zero_fill m p i x =
     (if 8 * i \<le> unat (x - p) \<and> unat (x - p) < 4096 then 0 else m x)"
proof (induction m p i rule: zero_fill.induct)
  case (1 m p i)
  show ?case
  proof (cases "i < 512")
    case True
    have s: "x - (p + 8 * word_of_nat i) = (x - p) - 8 * word_of_nat i" by simp
    have "zero_fill m p i x = zero_fill (store64 m (p + 8 * of_nat i) 0) p (i + 1) x"
      using True by (subst zero_fill.simps) (simp add: page_words)
    also have "\<dots> = (if 8 * (i + 1) \<le> unat (x - p) \<and> unat (x - p) < 4096 then 0
                      else store64 m (p + 8 * of_nat i) 0 x)"
      using True by (intro "1.IH") (simp_all add: page_words)
    finally show ?thesis
      using True unfolding store64_zero s sub_lt8 [OF True]
      by auto
  next
    case False
    with 1(2) have "i = 512" by simp
    then show ?thesis
      by (subst zero_fill.simps) (auto simp add: page_words)
  qed
qed

lemma zero_fill_page:
  "zero_fill m p 0 x = (if unat (x - p) < 4096 then 0 else m x)"
  using zero_fill_spec [of 0 m p x] by simp


lemma alloc_page_Some:
  "alloc_page h m = Some (p, h', m') \<longleftrightarrow>
     p = first_page h + PAGE_SIZE * nb_allocated h \<and>
     p + PAGE_SIZE < upper_bound h \<and>
     h' = h\<lparr>nb_allocated := nb_allocated h + 1\<rparr> \<and>
     m' = zero_fill m p 0"
  by (auto simp: alloc_page_def Let_def)

lemma alloc_page_None:
  "alloc_page h m = None \<longleftrightarrow>
     \<not> first_page h + PAGE_SIZE * nb_allocated h + PAGE_SIZE < upper_bound h"
  by (simp add: alloc_page_def Let_def)

lemma alloc_pages_handle:
  "alloc_pages n h m = Some (ps, hn, mn) \<Longrightarrow>
     hn = h\<lparr>nb_allocated := nb_allocated h + of_nat n\<rparr> \<and>
     ps = map (\<lambda>i. first_page h + PAGE_SIZE * (nb_allocated h + of_nat i)) [0..<n]"
proof (induction n arbitrary: ps hn mn)
  case 0
  then show ?case by simp
next
  case (Suc n)
  from Suc.prems obtain ps1 h1 m1 p where
    a: "alloc_pages n h m = Some (ps1, h1, m1)" and
    b: "alloc_page h1 m1 = Some (p, hn, mn)" and
    c: "ps = ps1 @ [p]"
    by (auto split: option.splits)
  from Suc.IH [OF a] b c show ?case
    by (auto simp: alloc_page_Some add.assoc)
qed

lemma unat_page_addr:
  fixes kend :: u64
  assumes "unat kend + 4096 * i < 2 ^ 64"
  shows "unat (kend + PAGE_SIZE * of_nat i) = unat kend + 4096 * i"
proof -
  have i: "i < 2 ^ 64" using assms by simp
  have "unat (PAGE_SIZE * of_nat i :: u64) = 4096 * i"
    using assms by (simp add: PAGE_SIZE_def unat_word_ariths unat_of_nat)
  then show ?thesis
    using assms by (simp add: unat_word_ariths)
qed

lemma align_down_le: "(dtb :: u64) AND NOT (PAGE_SIZE - 1) \<le> dtb"
  by (simp add: word_and_le2)

lemma aligned_iff: "(x AND (PAGE_SIZE - 1) = 0) = (unat x mod 4096 = 0)"
proof -
  have "x AND (PAGE_SIZE - 1) = take_bit 12 x"
    by (simp add: PAGE_SIZE_def take_bit_eq_mask mask_eq_exp_minus_1)
  moreover have "(take_bit 12 x = 0) = (unat (take_bit 12 x) = 0)"
    by (simp add: unat_eq_0)
  ultimately show ?thesis
    by (simp add: unsigned_take_bit_eq take_bit_eq_mod unat_mod)
qed

lemma align_down_bound: "unat ((dtb :: u64) AND NOT (PAGE_SIZE - 1)) + 4096 \<le> 2 ^ 64"
proof -
  let ?x = "dtb AND NOT (PAGE_SIZE - 1)"
  have "?x AND (PAGE_SIZE - 1) = 0"
    by (simp add: word_bw_assocs)
  then have m: "unat ?x mod 4096 = 0"
    by (simp add: aligned_iff)
  have b: "unat ?x < 2 ^ 64" using unsigned_less [of ?x] by simp
  from m obtain q where q: "unat ?x = 4096 * q"
    by (auto simp: mod_eq_0_iff_dvd)
  have "(2::nat) ^ 64 = 4096 * 2 ^ 52" by simp
  with b q have "q < 2 ^ 52" by simp
  then have "4096 * (q + 1) \<le> 4096 * (2::nat) ^ 52"
    by (intro mult_le_mono2) simp
  with q show ?thesis by simp
qed

lemma alloc_pages_no_wrap:
  assumes "alloc_pages n (mmu_init_handle kend dtb) m = Some (ps, hn, mn)"
      and "unat kend + 4096 < 2 ^ 64"
  shows "unat kend + 4096 * (n + 1) < 2 ^ 64"
  using assms
proof (induction n arbitrary: ps hn mn)
  case 0
  then show ?case by simp
next
  case (Suc n)
  let ?ub = "dtb AND NOT (PAGE_SIZE - 1)"
  from Suc.prems(1) obtain ps1 h1 m1 p where
    a: "alloc_pages n (mmu_init_handle kend dtb) m = Some (ps1, h1, m1)" and
    b: "alloc_page h1 m1 = Some (p, hn, mn)"
    by (auto split: option.splits)
  have ih: "unat kend + 4096 * (n + 1) < 2 ^ 64"
    by (rule Suc.IH [OF a Suc.prems(2)])
  from alloc_pages_handle [OF a]
  have h1: "h1 = \<lparr>first_page = kend, upper_bound = ?ub, nb_allocated = of_nat n\<rparr>"
    by (simp add: mmu_init_handle_def)
  have nxt: "unat (kend + PAGE_SIZE * of_nat n + PAGE_SIZE) = unat kend + 4096 * (n + 1)"
    using unat_page_addr [of kend "n + 1"] ih by (simp add: algebra_simps)
  from b have "kend + PAGE_SIZE * of_nat n + PAGE_SIZE < ?ub"
    unfolding alloc_page_Some h1 by auto
  then have "unat kend + 4096 * (n + 1) < unat ?ub"
    using nxt by (simp add: word_less_nat_alt)
  with align_down_bound [of dtb] show ?case by simp
qed

lemma page_byte_zero:
  assumes "k < 4096"
  shows "zero_fill m p 0 (p + of_nat k) = 0"
proof -
  have "unat (word_of_nat k :: u64) = k"
    using assms by (simp add: unat_of_nat)
  then show ?thesis using assms by (simp add: zero_fill_page)
qed

text \<open>
  Claim C10. The handle is the one \<open>mmu_init\<close> configures: first page \<open>_kend\<close>, upper
  bound the page-aligned start of the device-tree blob. \<open>_kend\<close> is the physical address
  of the end of the kernel image, so the page that starts there ends inside the address
  space (physical addresses of this platform have at most 48 bits). After \<open>n\<close> calls of
  \<open>alloc_page\<close> have returned, the next call halts exactly when the end of its page would
  reach the upper bound; the pages handed out so far are \<open>_kend + i * PAGE_SIZE\<close> for
  \<open>i < n\<close>; and when the call returns, it returns \<open>_kend + n * PAGE_SIZE\<close>, every byte
  of that page is zero, the page ends below the upper bound and hence below the blob, and
  it lies above every page handed out before, so the pages are pairwise disjoint.
\<close>

theorem alloc_page_bump:
  assumes prev: "alloc_pages n (mmu_init_handle kend dtb) m = Some (ps, hn, mn)"
      and first: "unat kend + 4096 < 2 ^ 64"
  shows "(alloc_page hn mn = None \<longleftrightarrow>
            unat (dtb AND NOT (PAGE_SIZE - 1)) \<le> unat kend + 4096 * (n + 1)) \<and>
         ps = map (\<lambda>i. kend + PAGE_SIZE * of_nat i) [0..<n] \<and>
         (\<forall>p h' m'. alloc_page hn mn = Some (p, h', m') \<longrightarrow>
            p = kend + PAGE_SIZE * of_nat n \<and>
            nb_allocated h' = of_nat (n + 1) \<and>
            (\<forall>k<4096. m' (p + of_nat k) = 0) \<and>
            unat p + 4096 < unat (dtb AND NOT (PAGE_SIZE - 1)) \<and>
            unat p + 4096 < unat dtb \<and>
            (\<forall>i<n. unat (ps ! i) + 4096 \<le> unat p))"
proof -
  let ?ub = "dtb AND NOT (PAGE_SIZE - 1)"
  have nowrap: "unat kend + 4096 * (n + 1) < 2 ^ 64"
    by (rule alloc_pages_no_wrap [OF prev first])
  from alloc_pages_handle [OF prev]
  have hn: "hn = \<lparr>first_page = kend, upper_bound = ?ub, nb_allocated = of_nat n\<rparr>"
   and ps: "ps = map (\<lambda>i. kend + PAGE_SIZE * of_nat i) [0..<n]"
    by (simp_all add: mmu_init_handle_def)
  have cur: "unat (kend + PAGE_SIZE * of_nat n) = unat kend + 4096 * n"
    using nowrap by (intro unat_page_addr) simp
  have nxt: "unat (kend + PAGE_SIZE * of_nat n + PAGE_SIZE) = unat kend + 4096 * (n + 1)"
    using unat_page_addr [of kend "n + 1"] nowrap by (simp add: algebra_simps)
  have prevs: "\<And>i. i < n \<Longrightarrow> unat (kend + PAGE_SIZE * of_nat i) = unat kend + 4096 * i"
    using nowrap by (intro unat_page_addr) simp
  have ub: "unat ?ub \<le> unat dtb"
    using align_down_le [of dtb] by (simp add: word_le_nat_alt)
  have none: "alloc_page hn mn = None \<longleftrightarrow> unat ?ub \<le> unat kend + 4096 * (n + 1)"
    unfolding alloc_page_None hn using nxt
    by (simp add: word_less_nat_alt not_less)
  have some: "p = kend + PAGE_SIZE * of_nat n \<and>
            nb_allocated h' = of_nat (n + 1) \<and>
            (\<forall>k<4096. m' (p + of_nat k) = 0) \<and>
            unat p + 4096 < unat ?ub \<and>
            unat p + 4096 < unat dtb \<and>
            (\<forall>i<n. unat (ps ! i) + 4096 \<le> unat p)"
    if a: "alloc_page hn mn = Some (p, h', m')" for p h' m'
  proof -
    from a have p: "p = kend + PAGE_SIZE * of_nat n"
      and lt: "p + PAGE_SIZE < ?ub"
      and h': "nb_allocated h' = of_nat n + 1"
      and m': "m' = zero_fill mn p 0"
      unfolding alloc_page_Some hn by auto
    have end_lt: "unat p + 4096 < unat ?ub"
      using lt nxt cur unfolding p by (simp add: word_less_nat_alt)
    have dis: "\<forall>i<n. unat (ps ! i) + 4096 \<le> unat p"
      unfolding ps p using cur prevs by auto
    show ?thesis
      using p h' end_lt ub dis by (simp add: m' page_byte_zero)
  qed
  from none ps some show ?thesis by blast
qed

text \<open>
  The theorem at a concrete configuration: kernel end \<open>0x80000\<close>, blob at \<open>0x8000100\<close>,
  one page already handed out.
\<close>

theorem alloc_page_bump_witness:
  "alloc_pages 1 (mmu_init_handle 0x80000 0x8000100) (\<lambda>a. 0xFF) =
     Some ([0x80000],
           \<lparr>first_page = 0x80000, upper_bound = 0x8000000, nb_allocated = 1\<rparr>,
           zero_fill (\<lambda>a. 0xFF) 0x80000 0) \<and>
   unat (0x80000 :: u64) + 4096 < 2 ^ 64 \<and>
   alloc_page \<lparr>first_page = 0x80000, upper_bound = 0x8000000, nb_allocated = 1\<rparr>
       (zero_fill (\<lambda>a. 0xFF) 0x80000 0) \<noteq> None \<and>
   map_option fst (alloc_page \<lparr>first_page = 0x80000, upper_bound = 0x8000000, nb_allocated = 1\<rparr>
       (zero_fill (\<lambda>a. 0xFF) 0x80000 0)) = Some 0x81000"
proof -
  have prev: "alloc_pages 1 (mmu_init_handle 0x80000 0x8000100) (\<lambda>a. 0xFF) =
     Some ([0x80000],
           \<lparr>first_page = 0x80000, upper_bound = 0x8000000, nb_allocated = 1\<rparr>,
           zero_fill (\<lambda>a. 0xFF) 0x80000 0)"
    by (simp add: mmu_init_handle_def alloc_page_def PAGE_SIZE_def)
  have first: "unat (0x80000 :: u64) + 4096 < 2 ^ 64" by simp
  from alloc_page_bump [OF prev first] prev first show ?thesis
    by (simp add: PAGE_SIZE_def alloc_page_def)
qed

text \<open>
  The hypothesis on \<open>_kend\<close> is used: were the kernel image to end in the last page of
  the 64-bit address space, \<open>current_page_offset + PAGE_SIZE\<close> would wrap to \<open>0\<close> and the
  check against the upper bound would pass.
\<close>

lemma alloc_page_last_page_wraps:
  "map_option fst (alloc_page (mmu_init_handle 0xFFFFFFFFFFFFF000 0xFFFFFFFFFFFFE000) (\<lambda>a. 0)) =
     Some 0xFFFFFFFFFFFFF000 \<and>
   upper_bound (mmu_init_handle 0xFFFFFFFFFFFFF000 0xFFFFFFFFFFFFE000) = 0xFFFFFFFFFFFFE000 \<and>
   (0xFFFFFFFFFFFFE000 :: u64) \<le> 0xFFFFFFFFFFFFF000"
  by (simp add: mmu_init_handle_def alloc_page_def PAGE_SIZE_def)

section \<open>Properties of the boot-time mapping setup\<close>

lemma Min_insert_step:
  fixes a m :: "'a :: linorder"
  assumes "finite S"
  shows "Min (insert (if a < m then a else m) S) = Min (insert m (insert a S))"
proof (cases "S = {}")
  case True
  then show ?thesis by (auto simp: min_def)
next
  case False
  with assms show ?thesis by (auto simp: min_def)
qed

lemma soc_ranges_min_spec:
  "soc_ranges_min p props index m =
     map_option (\<lambda>addrs. Min (set (m # addrs))) (soc_ranges_arm_addresses p props index)"
proof (induction p props index m rule: soc_ranges_min.induct)
  case (1 p props index m)
  show ?case
  proof (cases "index < length p")
    case False
    then show ?thesis
      by (simp add: soc_ranges_min.simps [of p props index] soc_ranges_arm_addresses.simps [of p props index])
  next
    case True
    show ?thesis
    proof (cases "get_variable_int p index (is_soc_mem_address_u64 props)")
      case None
      with True show ?thesis
        by (simp add: soc_ranges_min.simps [of p props index] soc_ranges_arm_addresses.simps [of p props index])
    next
      case (Some r1)
      obtain i1 x1 where r1: "r1 = (i1, x1)" by (cases r1)
      show ?thesis
      proof (cases "get_variable_int p i1 (is_arm_mem_address_u64 props)")
        case None
        with True Some r1 show ?thesis
          by (simp add: soc_ranges_min.simps [of p props index] soc_ranges_arm_addresses.simps [of p props index])
      next
        case s2: (Some r2)
        obtain i2 a where r2: "r2 = (i2, a)" by (cases r2)
        show ?thesis
        proof (cases "get_variable_int p i2 (is_soc_mem_size_u64 props)")
          case None
          with True Some r1 s2 r2 show ?thesis
            by (simp add: soc_ranges_min.simps [of p props index] soc_ranges_arm_addresses.simps [of p props index])
        next
          case s3: (Some r3)
          obtain i3 x3 where r3: "r3 = (i3, x3)" by (cases r3)
          have ih: "soc_ranges_min p props i3 (if a < m then a else m) =
                map_option (\<lambda>addrs. Min (set ((if a < m then a else m) # addrs)))
                  (soc_ranges_arm_addresses p props i3)"
            using "1.IH" [OF True Some [unfolded r1] refl s2 [unfolded r2] refl s3 [unfolded r3] refl] .
          show ?thesis
          proof (cases "soc_ranges_arm_addresses p props i3")
            case None
            with True Some r1 s2 r2 s3 r3 ih show ?thesis
              by (simp add: soc_ranges_min.simps [of p props index]
                  soc_ranges_arm_addresses.simps [of p props index])
          next
            case rest: (Some rest)
            have "soc_ranges_min p props index m = soc_ranges_min p props i3 (if a < m then a else m)"
              using True Some r1 s2 r2 s3 r3
              by (simp add: soc_ranges_min.simps [of p props index])
            also have "\<dots> = Some (Min (insert (if a < m then a else m) (set rest)))"
              using ih rest by simp
            also have "Min (insert (if a < m then a else m) (set rest)) = Min (insert m (insert a (set rest)))"
              by (rule Min_insert_step) simp
            finally show ?thesis
              using True Some r1 s2 r2 s3 r3 rest
              by (simp add: soc_ranges_arm_addresses.simps [of p props index])
          qed
        qed
      qed
    qed
  qed
qed

lemma clamp_below:
  fixes vc_start vc_size mmio :: u64
  assumes "vc_start \<le> mmio"
  shows "unat vc_start + unat (min vc_size (mmio - vc_start)) \<le> unat mmio"
proof -
  have "unat (min vc_size (mmio - vc_start)) \<le> unat (mmio - vc_start)"
    by (simp add: word_le_nat_alt [symmetric])
  also have "unat (mmio - vc_start) = unat mmio - unat vc_start"
    using assms by (rule unat_sub)
  finally show ?thesis
    using assms by (simp add: word_le_nat_alt)
qed

text \<open>
  Claim C6, as amended. Let \<open>mmio_base\<close> be the least ARM-bus address over all entries of
  \<open>/soc/ranges\<close> (the greatest 64-bit value when there is none) and let
  \<open>(vc_start, vc_size)\<close> be the first entry of \<open>/memreserve\<close>. Then \<open>setup_vc_mapping\<close>
  passes to \<open>map_range\<close> the range from \<open>VC_MEMORY\<close> to
  \<open>VC_MEMORY + final_vc_size - PAGE_SIZE\<close> and the physical start \<open>vc_start\<close>, where
  \<open>final_vc_size\<close> is the minimum of \<open>vc_size\<close> and the 64-bit unsigned difference
  \<open>mmio_base - vc_start\<close>; and whenever \<open>vc_start\<close> is not above \<open>mmio_base\<close>, the sum
  \<open>vc_start + final_vc_size\<close> does not exceed \<open>mmio_base\<close>.
\<close>

theorem setup_vc_mapping_clamp:
  assumes ranges: "find_property dt ''/soc/ranges'' = Some ranges"
      and entries: "soc_ranges_arm_addresses ranges props 0 = Some addrs"
      and memreserve: "find_property dt ''/memreserve'' = Some memreserve"
      and start: "get_variable_int memreserve 0 False = Some (i1, vc_start)"
      and size: "get_variable_int memreserve i1 False = Some (i2, vc_size)"
      and mmio: "mmio_base = Min (set (- 1 # addrs))"
      and final: "final_vc_size = min vc_size (mmio_base - vc_start)"
  shows "vc_region dt props = Some (vc_start, final_vc_size) \<and>
         setup_vc_mapping map_op VC_MEMORY tbl dt props =
           enforce (map_op tbl VC_MEMORY (VC_MEMORY + final_vc_size - PAGE_SIZE)
                      vc_start vc_memory) \<and>
         (vc_start \<le> mmio_base \<longrightarrow> unat vc_start + unat final_vc_size \<le> unat mmio_base)"
proof -
  have "soc_ranges_min ranges props 0 (- 1) = Some mmio_base"
    by (simp add: soc_ranges_min_spec entries mmio)
  then have r: "vc_region dt props = Some (vc_start, final_vc_size)"
    by (simp add: vc_region_def ranges memreserve start size final)
  then have s: "setup_vc_mapping map_op VC_MEMORY tbl dt props =
           enforce (map_op tbl VC_MEMORY (VC_MEMORY + final_vc_size - PAGE_SIZE)
                      vc_start vc_memory)"
    by (simp add: setup_vc_mapping_def)
  from r s show ?thesis
    unfolding final by (simp add: clamp_below)
qed

text \<open>
  The theorem on a device tree with one range at ARM-bus address \<open>0x3F000000\<close> and a
  reserved region of \<open>0x04C00000\<close> bytes at \<open>0x3B400000\<close>: the size is clamped to
  \<open>0x03C00000\<close>.
\<close>

theorem setup_vc_mapping_clamp_witness:
  "find_property
     \<lparr>find_property = [''/soc/ranges'' \<mapsto> [0x7E,0,0,0, 0x3F,0,0,0, 0x01,0x80,0,0],
                        ''/memreserve'' \<mapsto> [0x3B,0x40,0,0, 0x04,0xC0,0,0]],
      get_children = []\<rparr> ''/soc/ranges'' =
      Some [0x7E,0,0,0, 0x3F,0,0,0, 0x01,0x80,0,0] \<and>
   soc_ranges_arm_addresses [0x7E,0,0,0, 0x3F,0,0,0, 0x01,0x80,0,0] example_props 0 =
      Some [0x3F000000] \<and>
   get_variable_int [0x3B,0x40,0,0, 0x04,0xC0,0,0] 0 False = Some (4, 0x3B400000) \<and>
   get_variable_int [0x3B,0x40,0,0, 0x04,0xC0,0,0] 4 False = Some (8, 0x04C00000) \<and>
   (0x3F000000 :: u64) = Min (set [- 1, 0x3F000000]) \<and>
   (0x03C00000 :: u64) = min 0x04C00000 (0x3F000000 - 0x3B400000) \<and>
   vc_region
     \<lparr>find_property = [''/soc/ranges'' \<mapsto> [0x7E,0,0,0, 0x3F,0,0,0, 0x01,0x80,0,0],
                        ''/memreserve'' \<mapsto> [0x3B,0x40,0,0, 0x04,0xC0,0,0]],
      get_children = []\<rparr> example_props =
      Some (0x3B400000, 0x03C00000) \<and>
   unat (0x3B400000 :: u64) + unat (0x03C00000 :: u64) \<le> unat (0x3F000000 :: u64)"
proof -
  let ?ranges = "[0x7E,0,0,0, 0x3F,0,0,0, 0x01,0x80,0,0] :: Property"
  let ?mr = "[0x3B,0x40,0,0, 0x04,0xC0,0,0] :: Property"
  let ?dt = "\<lparr>find_property = [''/soc/ranges'' \<mapsto> ?ranges, ''/memreserve'' \<mapsto> ?mr],
             get_children = []\<rparr>"
  have h1: "find_property ?dt ''/soc/ranges'' = Some ?ranges" by simp
  have h2: "soc_ranges_arm_addresses ?ranges example_props 0 = Some [0x3F000000]"
    by (simp add: soc_ranges_arm_addresses.simps get_variable_int_def from_be_def
        example_props_def)
  have h3: "find_property ?dt ''/memreserve'' = Some ?mr" by simp
  have h4: "get_variable_int ?mr 0 False = Some (4, 0x3B400000)"
    by (simp add: get_variable_int_def from_be_def)
  have h5: "get_variable_int ?mr 4 False = Some (8, 0x04C00000)"
    by (simp add: get_variable_int_def from_be_def)
  have h6: "(0x3F000000 :: u64) = Min (set [- 1, 0x3F000000])" by simp
  have h7: "(0x03C00000 :: u64) = min 0x04C00000 (0x3F000000 - 0x3B400000)" by simp
  have le: "(0x3B400000 :: u64) \<le> 0x3F000000" by simp
  from setup_vc_mapping_clamp [OF h1 h2 h3 h4 h5 h6 h7, of "\<lambda>t a b c d. (True, t)" 0 "()"] le
  have "vc_region ?dt example_props = Some (0x3B400000, 0x03C00000) \<and>
        unat (0x3B400000 :: u64) + unat (0x03C00000 :: u64) \<le> unat (0x3F000000 :: u64)"
    by blast
  with h1 h2 h4 h5 h6 h7 show ?thesis by blast
qed

text \<open>
  When the reserved region starts above the least ARM-bus address, the subtraction wraps
  around and nothing is clamped: with a range at \<open>0x00100000\<close> the whole region of
  \<open>0x04C00000\<close> bytes at \<open>0x3B400000\<close> is mapped, and it ends above \<open>0x00100000\<close>.
\<close>

theorem setup_vc_mapping_underflow_counterexample:
  "soc_ranges_min [0x7E,0,0,0, 0x00,0x10,0,0, 0x01,0x80,0,0] example_props 0 (- 1) =
      Some 0x00100000 \<and>
   vc_region
     \<lparr>find_property = [''/soc/ranges'' \<mapsto> [0x7E,0,0,0, 0x00,0x10,0,0, 0x01,0x80,0,0],
                        ''/memreserve'' \<mapsto> [0x3B,0x40,0,0, 0x04,0xC0,0,0]],
      get_children = []\<rparr> example_props =
      Some (0x3B400000, 0x04C00000) \<and>
   unat (0x00100000 :: u64) < unat (0x3B400000 :: u64) + unat (0x04C00000 :: u64)"
  by (simp add: vc_region_def soc_ranges_min.simps get_variable_int_def from_be_def
      example_props_def)

text \<open>
  The end of the range passed for the device-tree blob is the page boundary at or behind
  the end of the blob, where the two calls for the kernel segments pass the address of
  the last page (\<open>_srodata - PAGE_SIZE\<close>, \<open>_srwdata - PAGE_SIZE\<close>).
\<close>

lemma dtb_range_end:
  "snd (dtb_range NORMAL_MEMORY m dtb) =
     NORMAL_MEMORY + align (dtb + read_be32 m (dtb + 4)) PAGE_SIZE"
  by (simp add: dtb_range_def Let_def)

text \<open>
  Claim C7 at a concrete input: a blob of \<open>0x1000\<close> bytes at \<open>0x8000000\<close> fills exactly
  the page at \<open>0x8000000\<close>, and the inclusive range passed to \<open>change_attr_range\<close> ends at
  the page at \<open>0x8001000\<close>, which holds no byte of the blob.
\<close>

theorem dtb_range_extra_page:
  "dtb_range NORMAL_MEMORY (\<lambda>a. if a = 0x8000006 then 0x10 else 0) 0x8000000 =
     (NORMAL_MEMORY + 0x8000000, NORMAL_MEMORY + 0x8001000) \<and>
   read_be32 (\<lambda>a. if a = 0x8000006 then 0x10 else 0) (0x8000000 + 4) = 0x1000"
  by (simp add: dtb_range_def read_be32_def from_be_def align_def PAGE_SIZE_def Let_def)

section \<open>Properties of the page-table manager\<close>

lemma same_page_refl: "same_page d va va"
  by (simp add: same_page_def)

lemma same_page_Suc:
  "same_page (Suc d) va x \<longleftrightarrow> table_index (Suc d) va = table_index (Suc d) x \<and> same_page d va x"
  by (auto simp: same_page_def le_Suc_eq)

lemma same_page_0: "same_page 0 va x \<longleftrightarrow> table_index 0 va = table_index 0 x"
  by (simp add: same_page_def)

lemma translate_from_map_page:
  "map_page_from d al rva va pa attrs tbl h = (r, tbl', h') \<Longrightarrow>
   translate_from d tbl' x =
     (if r = None \<and> same_page d va x then Some (pa + (x AND (PAGE_SIZE - 1)))
      else translate_from d tbl x)"
proof (induction d arbitrary: tbl h r tbl' h')
  case 0
  then show ?case
    by (cases "table_index 0 x = table_index 0 va") (auto simp: same_page_0 split: PageTableEntry.splits)
next
  case (Suc d)
  let ?i = "table_index (Suc d) va"
  show ?case
  proof (cases "tbl ?i")
    case Invalid
    show ?thesis
    proof (cases "al h")
      case None
      with Invalid Suc.prems show ?thesis by auto
    next
      case (Some a)
      obtain page h1 where a: "a = (page, h1)" by (cases a)
      obtain r1 n1 h2 where rec: "map_page_from d al rva va pa attrs (\<lambda>_. Invalid) h1 = (r1, n1, h2)"
        by (cases "map_page_from d al rva va pa attrs (\<lambda>_. Invalid) h1")
      from Suc.prems Invalid Some a rec
      have r: "r = r1" and t: "tbl' = tbl(?i := TableDescriptor (rva h1 page) n1)"
        by auto
      have e: "translate_from d (\<lambda>_. Invalid) x = None" by (cases d) simp_all
      from Suc.IH [OF rec] e
      have ih: "translate_from d n1 x =
                 (if r1 = None \<and> same_page d va x then Some (pa + (x AND (PAGE_SIZE - 1))) else None)"
        by simp
      show ?thesis
        using Invalid ih unfolding r t same_page_Suc
        by (cases "table_index (Suc d) x = ?i") auto
    qed
  next
    case (TableDescriptor p nxt)
    obtain r1 n1 h2 where rec: "map_page_from d al rva va pa attrs nxt h = (r1, n1, h2)"
      by (cases "map_page_from d al rva va pa attrs nxt h")
    from Suc.prems TableDescriptor rec
    have r: "r = r1" and t: "tbl' = tbl(?i := TableDescriptor p n1)"
      by auto
    show ?thesis
      using TableDescriptor Suc.IH [OF rec] unfolding r t same_page_Suc
      by (cases "table_index (Suc d) x = ?i") auto
  next
    case (PageDescriptor p a)
    with Suc.prems show ?thesis by auto
  qed
qed


lemma translate_from_same_page_None:
  "same_page d va x \<Longrightarrow> translate_from d tbl va = None \<Longrightarrow> translate_from d tbl x = None"
proof (induction d arbitrary: tbl)
  case 0
  then show ?case
    by (auto simp: same_page_0 split: PageTableEntry.splits)
next
  case (Suc d)
  then show ?case
    by (auto simp: same_page_Suc split: PageTableEntry.splits)
qed

lemma map_page_from_success_unmapped:
  "map_page_from d al rva va pa attrs tbl h = (None, tbl', h') \<Longrightarrow>
   translate_from d tbl va = None"
proof (induction d arbitrary: tbl h tbl' h')
  case 0
  then show ?case
    by (auto split: PageTableEntry.splits)
next
  case (Suc d)
  then show ?case
    by (auto split: PageTableEntry.splits option.splits prod.splits)
qed

lemma map_page_from_keeps:
  assumes m: "map_page_from d al rva va pa attrs tbl h = (None, tbl', h')"
      and x: "translate_from d tbl x = Some y"
  shows "translate_from d tbl' x = Some y"
proof -
  have "\<not> same_page d va x"
    using translate_from_same_page_None [of d va x tbl] map_page_from_success_unmapped [OF m] x
    by auto
  with translate_from_map_page [OF m, of x] x show ?thesis by simp
qed

lemma map_pages_keeps:
  "map_pages al rva vas pa attrs tbl h = (None, tbl', h') \<Longrightarrow>
   translate_from 3 tbl x = Some y \<Longrightarrow> translate_from 3 tbl' x = Some y"
proof (induction vas arbitrary: pa tbl h)
  case Nil
  then show ?case by simp
next
  case (Cons va vas)
  obtain r t1 h1 where one: "map_page_from 3 al rva va pa attrs tbl h = (r, t1, h1)"
    by (cases "map_page_from 3 al rva va pa attrs tbl h")
  with Cons.prems(1) have r: "r = None"
    and rest: "map_pages al rva vas (pa + PAGE_SIZE) attrs t1 h1 = (None, tbl', h')"
    by (auto split: option.splits)
  from map_page_from_keeps [OF one [unfolded r] Cons.prems(2)]
  show ?case by (rule Cons.IH [OF rest])
qed

lemma map_pages_translate:
  "map_pages al rva vas pa attrs tbl h = (None, tbl', h') \<Longrightarrow> k < length vas \<Longrightarrow>
   translate_from 3 tbl' (vas ! k) =
     Some (pa + PAGE_SIZE * of_nat k + (vas ! k AND (PAGE_SIZE - 1)))"
proof (induction vas arbitrary: pa tbl h k)
  case Nil
  then show ?case by simp
next
  case (Cons va vas)
  obtain r t1 h1 where one: "map_page_from 3 al rva va pa attrs tbl h = (r, t1, h1)"
    by (cases "map_page_from 3 al rva va pa attrs tbl h")
  with Cons.prems(1) have r: "r = None"
    and rest: "map_pages al rva vas (pa + PAGE_SIZE) attrs t1 h1 = (None, tbl', h')"
    by (auto split: option.splits)
  show ?case
  proof (cases k)
    case 0
    have "translate_from 3 t1 va = Some (pa + (va AND (PAGE_SIZE - 1)))"
      using translate_from_map_page [OF one, of va] r by (simp add: same_page_refl)
    from map_pages_keeps [OF rest this] 0 show ?thesis by simp
  next
    case (Suc k')
    with Cons.prems(2) have "k' < length vas" by simp
    from Cons.IH [OF rest this] Suc show ?thesis
      by (simp add: algebra_simps)
  qed
qed

lemma map_pages_unmapped_before:
  "map_pages al rva vas pa attrs tbl h = (None, tbl', h') \<Longrightarrow> k < length vas \<Longrightarrow>
   translate_from 3 tbl (vas ! k) = None"
proof (induction vas arbitrary: pa tbl h k)
  case Nil
  then show ?case by simp
next
  case (Cons va vas)
  obtain r t1 h1 where one: "map_page_from 3 al rva va pa attrs tbl h = (r, t1, h1)"
    by (cases "map_page_from 3 al rva va pa attrs tbl h")
  with Cons.prems(1) have r: "r = None"
    and rest: "map_pages al rva vas (pa + PAGE_SIZE) attrs t1 h1 = (None, tbl', h')"
    by (auto split: option.splits)
  show ?case
  proof (cases k)
    case 0
    with map_page_from_success_unmapped [OF one [unfolded r]] show ?thesis by simp
  next
    case (Suc k')
    with Cons.prems(2) have k': "k' < length vas" by simp
    have after: "translate_from 3 t1 (vas ! k') = None"
      by (rule Cons.IH [OF rest k'])
    show ?thesis
    proof (cases "translate_from 3 tbl (vas ! k')")
      case None
      with Suc show ?thesis by simp
    next
      case (Some y)
      from map_page_from_keeps [OF one [unfolded r] Some] after show ?thesis by simp
    qed
  qed
qed

lemma range_pages_nth:
  assumes a1: "va_start AND (PAGE_SIZE - 1) = 0"
      and a2: "va AND (PAGE_SIZE - 1) = 0"
      and le1: "va_start \<le> va" and le2: "va \<le> va_end"
  shows "\<exists>k < length (range_pages va_start va_end).
           range_pages va_start va_end ! k = va \<and> PAGE_SIZE * of_nat k = va - va_start"
proof -
  let ?a = "unat va_start" and ?b = "unat va" and ?e = "unat va_end"
  let ?k = "(?b - ?a) div 4096"
  have ab: "?a \<le> ?b" and be: "?b \<le> ?e"
    using le1 le2 by (simp_all add: word_le_nat_alt)
  have e: "?e < 2 ^ 64" using unsigned_less [of va_end] by simp
  have ma: "?a mod 4096 = 0" and mb: "?b mod 4096 = 0"
    using a1 a2 by (simp_all add: aligned_iff)
  have le: "va_start \<le> va_end" using le1 le2 by simp
  have n: "unat ((va_end - va_start) div PAGE_SIZE) = (?e - ?a) div 4096"
    using le by (simp add: unat_div unat_sub PAGE_SIZE_def)
  have len: "length (range_pages va_start va_end) = (?e - ?a) div 4096 + 1"
    using le by (simp add: range_pages_def n del: upt_Suc)
  have klt: "?k < (?e - ?a) div 4096 + 1"
    using be by (simp add: div_le_mono diff_le_mono less_Suc_eq_le)
  have kb: "4096 * ?k = ?b - ?a"
  proof -
    have "(?b - ?a) mod 4096 = 0"
      using ma mb ab by (metis mod_0_imp_dvd dvd_diff_nat dvd_imp_mod_0)
    then show ?thesis by (simp add: mult.commute dvd_div_mult_self mod_0_imp_dvd)
  qed
  have k64: "?k < 2 ^ 64" using e be by (simp add: less_imp_diff_less div_le_dividend le_less_trans)
  have uk: "unat (PAGE_SIZE * of_nat ?k :: u64) = ?b - ?a"
  proof -
    have "unat (PAGE_SIZE * of_nat ?k :: u64) = (4096 * ?k) mod 2 ^ 64"
      by (simp add: unat_word_ariths unat_of_nat PAGE_SIZE_def mod_mult_right_eq)
    also have "\<dots> = ?b - ?a"
      using kb e be by simp
    finally show ?thesis .
  qed
  have diff: "PAGE_SIZE * of_nat ?k = va - va_start"
    using uk le1 by (simp add: word_unat_eq_iff unat_sub)
  have nth: "range_pages va_start va_end ! ?k = va_start + PAGE_SIZE * of_nat ?k"
    using le klt by (simp add: range_pages_def n del: upt_Suc)
  show ?thesis
    using klt len nth diff by (intro exI [of _ ?k]) simp
qed

text \<open>
  Claim C1. If \<open>map_range(table, va_start, va_end, pa_start, attrs)\<close> succeeds, with
  \<open>va_start\<close> page-aligned, then for every page-aligned \<open>va\<close> in \<open>[va_start, va_end]\<close>
  the new table translates \<open>va\<close> to \<open>pa_start + (va - va_start)\<close>. The range was fresh:
  the call succeeds only if \<open>va\<close> was not mapped before.
\<close>

theorem map_range_translate:
  assumes ok: "map_range table va_start va_end pa_start attrs = (None, table')"
      and a1: "va_start AND (PAGE_SIZE - 1) = 0"
      and a2: "va AND (PAGE_SIZE - 1) = 0"
      and le1: "va_start \<le> va" and le2: "va \<le> va_end"
  shows "translate table' va = Some (pa_start + (va - va_start)) \<and> translate table va = None"
proof -
  obtain r tbl' h' where
    mp: "map_pages (alloc table) (resolve_va table) (range_pages va_start va_end)
           pa_start attrs (root table) (handle table) = (r, tbl', h')"
    by (cases "map_pages (alloc table) (resolve_va table) (range_pages va_start va_end)
           pa_start attrs (root table) (handle table)")
  with ok have r: "r = None" and t': "table' = table\<lparr>handle := h', root := tbl'\<rparr>"
    by (simp_all add: map_range_def)
  from range_pages_nth [OF a1 a2 le1 le2] obtain k where
    k: "k < length (range_pages va_start va_end)"
    and nth: "range_pages va_start va_end ! k = va"
    and diff: "PAGE_SIZE * of_nat k = va - va_start"
    by blast
  from map_pages_translate [OF mp [unfolded r] k] nth diff a2
  have "translate_from 3 tbl' va = Some (pa_start + (va - va_start))"
    by simp
  moreover from map_pages_unmapped_before [OF mp [unfolded r] k] nth
  have "translate_from 3 (root table) va = None" by simp
  ultimately show ?thesis by (simp add: translate_def t')
qed


lemma range_pages_example: "range_pages 0x1000 0x2000 = [0x1000, 0x2000]"
  by (simp add: range_pages_def PAGE_SIZE_def)

lemma idx_example:
  "table_index 0 0x1000 = 1" "table_index 0 0x2000 = 2"
  "table_index (Suc 0) 0x1000 = 0" "table_index (Suc 0) 0x2000 = 0"
  "table_index 2 0x1000 = 0" "table_index 2 0x2000 = 0"
  "table_index 3 0x1000 = 0" "table_index 3 0x2000 = 0"
  by (simp_all add: table_index_def)

lemma example_ok:
  "fst (map_range example_table 0x1000 0x2000 0x200000 rw_memory) = None"
  by (simp add: map_range_def range_pages_example example_table_def idx_example
      numeral_3_eq_3 numeral_2_eq_2)

text \<open>
  The theorem on the empty example table: mapping the two pages \<open>0x1000\<close> and \<open>0x2000\<close>
  to \<open>0x200000\<close> succeeds, and the second page then translates to \<open>0x201000\<close>.
\<close>

theorem map_range_translate_witness:
  "fst (map_range example_table 0x1000 0x2000 0x200000 rw_memory) = None \<and>
   (0x1000 :: u64) AND (PAGE_SIZE - 1) = 0 \<and> (0x2000 :: u64) AND (PAGE_SIZE - 1) = 0 \<and>
   (0x1000 :: u64) \<le> 0x2000 \<and>
   translate (snd (map_range example_table 0x1000 0x2000 0x200000 rw_memory)) 0x2000 =
     Some 0x201000 \<and>
   translate example_table 0x2000 = None"
proof -
  have ok: "map_range example_table 0x1000 0x2000 0x200000 rw_memory =
              (None, snd (map_range example_table 0x1000 0x2000 0x200000 rw_memory))"
    using example_ok by (metis prod.collapse)
  have a1: "(0x1000 :: u64) AND (PAGE_SIZE - 1) = 0" by (simp add: PAGE_SIZE_def)
  have a2: "(0x2000 :: u64) AND (PAGE_SIZE - 1) = 0" by (simp add: PAGE_SIZE_def)
  have le1: "(0x1000 :: u64) \<le> 0x2000" by simp
  have le2: "(0x2000 :: u64) \<le> 0x2000" by simp
  from map_range_translate [OF ok a1 a2 le1 le2] example_ok a1 a2 le1
  show ?thesis by simp
qed

end
